theory Spec2Isabelle
  imports Main
begin

section \<open>Presence heartbeat (lib/srv/heartbeatv2.go)\<close>

text \<open>
  The development follows \<^verbatim>\<open>lib/srv/heartbeatv2.go\<close>: first the ssh server driver
  (\<^verbatim>\<open>sshServerHeartbeatV2\<close>), then the engine (\<^verbatim>\<open>HeartbeatV2\<close>) with its two
  nested event loops.

  Conventions. Durations are integers (nanoseconds), and so are instants, counted from the
  zero \<^verbatim>\<open>time.Time\<close>. A Go \<^verbatim>\<open>error\<close> is a \<open>go_error option\<close>, \<open>None\<close> being
  \<^verbatim>\<open>nil\<close>. A channel is known by its identity (a natural number). Calls that leave the
  file (the \<^verbatim>\<open>getServer\<close> closure, the announcer, the sender, the clock, the jitter, the
  semantic comparator of package services) are parameters: functions over an external world
  that they may read and change. A server is a value: the driver keeps what \<^verbatim>\<open>getServer\<close>
  returned at the time of the call. In the code \<^verbatim>\<open>prev\<close> is a pointer, and the goroutine
  started by the \<^verbatim>\<open>getServer\<close> closure of \<^verbatim>\<open>NewSSHServerHeartbeat\<close> may later call
  \<^verbatim>\<open>SetCloudMetadata\<close> on the object it points to; those later writes are not followed here.
\<close>

type_synonym go_error = string
type_synonym sender = nat
type_synonym waiter = nat
type_synonym instant = int
type_synonym duration = int

subsection \<open>The ssh server driver\<close>

text \<open>\<^verbatim>\<open>proto.InventoryHeartbeat\<close>, with the one field the driver fills in.\<close>

record 'srv InventoryHeartbeat =
  SSHServer :: 'srv

text \<open>
  What the driver calls: the fields \<^verbatim>\<open>getServer\<close> and \<^verbatim>\<open>announcer\<close> of the struct
  (\<open>announcer = None\<close> is the \<^verbatim>\<open>nil\<close> announcer, otherwise its \<^verbatim>\<open>UpsertNode\<close>),
  \<^verbatim>\<open>sender.Send\<close>, and \<^verbatim>\<open>services.CompareServers\<close> with its result \<^verbatim>\<open>services.Different\<close>.
\<close>

record ('srv, 'x, 'c) ssh_deps =
  getServer :: "'x \<Rightarrow> 'srv \<times> 'x"
  announcer :: "('srv \<Rightarrow> 'x \<Rightarrow> go_error option \<times> 'x) option"
  Send :: "sender \<Rightarrow> 'srv InventoryHeartbeat \<Rightarrow> 'x \<Rightarrow> go_error option \<times> 'x"
  CompareServers :: "'srv \<Rightarrow> 'srv \<Rightarrow> 'c"
  Different :: 'c

text \<open>
  The driver's state: \<^verbatim>\<open>prev\<close> (\<open>None\<close> is the \<^verbatim>\<open>nil\<close> pointer), the external world,
  and a record of every message handed to \<^verbatim>\<open>sender.Send\<close> and every server handed to
  \<^verbatim>\<open>UpsertNode\<close>, oldest first.
\<close>

record ('srv, 'x) sshServerHeartbeatV2 =
  prev :: "'srv option"
  ext :: 'x
  sent :: "(sender \<times> 'srv InventoryHeartbeat) list"
  upserted :: "'srv list"

definition sshServerHeartbeatV2_Poll ::
  "('srv, 'x, 'c) ssh_deps \<Rightarrow> ('srv, 'x) sshServerHeartbeatV2 \<Rightarrow> bool \<times> ('srv, 'x) sshServerHeartbeatV2" where
  "sshServerHeartbeatV2_Poll D h =
     (case prev h of
        None \<Rightarrow> (True, h)
      | Some p \<Rightarrow>
          (let (server, x1) = getServer D (ext h)
           in (CompareServers D server p = Different D, h\<lparr>ext := x1\<rparr>)))"

definition sshServerHeartbeatV2_SupportsFallback ::
  "('srv, 'x, 'c) ssh_deps \<Rightarrow> ('srv, 'x) sshServerHeartbeatV2 \<Rightarrow> bool" where
  "sshServerHeartbeatV2_SupportsFallback D h = (announcer D \<noteq> None)"

definition sshServerHeartbeatV2_FallbackAnnounce ::
  "('srv, 'x, 'c) ssh_deps \<Rightarrow> ('srv, 'x) sshServerHeartbeatV2 \<Rightarrow> bool \<times> ('srv, 'x) sshServerHeartbeatV2" where
  "sshServerHeartbeatV2_FallbackAnnounce D h =
     (case announcer D of
        None \<Rightarrow> (False, h)
      | Some UpsertNode \<Rightarrow>
          (let (server, x1) = getServer D (ext h);
               (err, x2) = UpsertNode server x1;
               h1 = h\<lparr>ext := x2, upserted := upserted h @ [server]\<rparr>
           in if err \<noteq> None then (False, h1)
              else (True, h1\<lparr>prev := Some server\<rparr>)))"

text \<open>
  \<^verbatim>\<open>Announce\<close> calls \<^verbatim>\<open>getServer\<close> twice: once for the local \<^verbatim>\<open>server\<close>, once more
  for the field of the message it sends.
\<close>

definition sshServerHeartbeatV2_Announce ::
  "('srv, 'x, 'c) ssh_deps \<Rightarrow> sender \<Rightarrow> ('srv, 'x) sshServerHeartbeatV2 \<Rightarrow> bool \<times> ('srv, 'x) sshServerHeartbeatV2" where
  "sshServerHeartbeatV2_Announce D sndr h =
     (let (server, x1) = getServer D (ext h);
          (payload, x2) = getServer D x1;
          msg = \<lparr>SSHServer = payload\<rparr>;
          (err, x3) = Send D sndr msg x2;
          h1 = h\<lparr>ext := x3, sent := sent h @ [(sndr, msg)]\<rparr>
      in if err \<noteq> None then (False, h1)
         else (True, h1\<lparr>prev := Some server\<rparr>))"

subsection \<open>The engine: data\<close>

text \<open>The test events (\<^verbatim>\<open>hbv2TestEvent\<close>) and the errors handed to \<^verbatim>\<open>onHeartbeat\<close>.\<close>

datatype hbv2TestEvent =
    hbv2AnnounceOk | hbv2AnnounceErr
  | hbv2FallbackOk | hbv2FallbackErr
  | hbv2PollSame | hbv2PollDiff
  | hbv2Start | hbv2Close
  | hbv2AnnounceInterval
  | hbv2FallbackBackoff
  | hbv2NoFallback
  | hbv2OnHeartbeatOk | hbv2OnHeartbeatErr

datatype hb_error = announceFailed | fallbackFailed | icsUnavailable | noSenderErr

text \<open>
  What the worker does that is visible outside a single assignment, in the order of the
  statements: calls of \<^verbatim>\<open>h.testEvent\<close> and the channel send inside it, resets and stops of
  the intervals, writes of \<^verbatim>\<open>shouldAnnounce\<close>, \<^verbatim>\<open>fallbackBackoffTime\<close> and
  \<^verbatim>\<open>announceWaiters\<close>, calls of \<^verbatim>\<open>h.onHeartbeat\<close> and of \<^verbatim>\<open>onHeartbeatInner\<close> inside it,
  \<^verbatim>\<open>close(waiter)\<close>, and the calls of the driver.
\<close>

datatype effect =
    TestEventCall hbv2TestEvent
  | TestEventSend hbv2TestEvent
  | AnnounceReset
  | DegradedCheckReset
  | AnnounceStop
  | PollStop
  | DegradedCheckStop
  | ShouldAnnounceSet bool
  | FallbackBackoffTimeSet instant
  | OnHeartbeat "hb_error option"
  | OnHeartbeatInner "hb_error option"
  | CloseWaiter waiter
  | WaiterParked waiter
  | WaitersCleared
  | CallPoll
  | CallFallbackAnnounce
  | CallAnnounce sender

text \<open>The interface \<^verbatim>\<open>heartbeatV2Driver\<close>, over a world \<open>'w\<close> that holds the driver's state.\<close>

record 'w heartbeatV2Driver =
  Poll :: "'w \<Rightarrow> bool \<times> 'w"
  FallbackAnnounce :: "'w \<Rightarrow> bool \<times> 'w"
  Announce :: "sender \<Rightarrow> 'w \<Rightarrow> bool \<times> 'w"
  SupportsFallback :: "'w \<Rightarrow> bool"

text \<open>The driver together with \<^verbatim>\<open>time.Now\<close> and \<^verbatim>\<open>utils.SeventhJitter\<close>.\<close>

record 'w hb_env = "'w heartbeatV2Driver" +
  Now :: "'w \<Rightarrow> instant \<times> 'w"
  SeventhJitter :: "duration \<Rightarrow> 'w \<Rightarrow> duration \<times> 'w"

text \<open>
  \<^verbatim>\<open>HeartbeatV2\<close>. Of \<^verbatim>\<open>heartbeatV2Config\<close>: \<open>fallbackBackoff\<close>, whether the channel
  \<^verbatim>\<open>testEvents\<close> is non-nil and whether \<^verbatim>\<open>onHeartbeatInner\<close> is non-nil. Of the worker's
  own fields: \<open>fallbackBackoffTime\<close>, \<open>shouldAnnounce\<close>, \<open>announceWaiters\<close>. Then the world,
  the channels closed so far, whether the goroutine is panicking, and the effects so far
  (oldest first).
\<close>

record 'w HeartbeatV2 =
  fallbackBackoff :: duration
  testEvents :: bool
  onHeartbeatInner :: bool
  fallbackBackoffTime :: instant
  shouldAnnounce :: bool
  announceWaiters :: "waiter list"
  world :: 'w
  closedChans :: "waiter list"
  panicking :: bool
  effects :: "effect list"

text \<open>What a \<^verbatim>\<open>select\<close> of the two loops can receive.\<close>

datatype event =
    SenderAvailable sender
  | SenderDone
  | AnnounceTick
  | PollTick
  | DegradedCheckTick
  | TestAnnounce waiter
  | CloseContextDone

text \<open>
  Where the worker is blocked: in the \<^verbatim>\<open>select\<close> of \<^verbatim>\<open>run\<close>, in the \<^verbatim>\<open>select\<close> of
  \<^verbatim>\<open>runWithSender\<close>, or nowhere (\<^verbatim>\<open>run\<close> has returned, or a panic has unwound it).
\<close>

datatype loc = AtRun | AtRunWithSender sender | Returned | Crashed

subsection \<open>The engine: operations\<close>

definition emit :: "effect \<Rightarrow> 'w HeartbeatV2 \<Rightarrow> 'w HeartbeatV2" where
  "emit e h = h\<lparr>effects := effects h @ [e]\<rparr>"

definition testEvent :: "hbv2TestEvent \<Rightarrow> 'w HeartbeatV2 \<Rightarrow> 'w HeartbeatV2" where
  "testEvent ev h =
     (let h1 = emit (TestEventCall ev) h
      in if \<not> testEvents h1 then h1 else emit (TestEventSend ev) h1)"

definition onHeartbeat :: "hb_error option \<Rightarrow> 'w HeartbeatV2 \<Rightarrow> 'w HeartbeatV2" where
  "onHeartbeat err h =
     (let h1 = emit (OnHeartbeat err) h;
          h2 = (if err \<noteq> None then testEvent hbv2OnHeartbeatErr h1
                else testEvent hbv2OnHeartbeatOk h1)
      in if \<not> onHeartbeatInner h2 then h2 else emit (OnHeartbeatInner err) h2)"

text \<open>\<^verbatim>\<open>close(waiter)\<close>: closing a closed channel panics.\<close>

definition close_chan :: "waiter \<Rightarrow> 'w HeartbeatV2 \<Rightarrow> 'w HeartbeatV2" where
  "close_chan c h =
     (if c \<in> set (closedChans h) then h\<lparr>panicking := True\<rparr>
      else emit (CloseWaiter c) (h\<lparr>closedChans := closedChans h @ [c]\<rparr>))"

text \<open>\<^verbatim>\<open>for _, waiter := range h.announceWaiters { close(waiter) }\<close>\<close>

fun closeWaiters :: "waiter list \<Rightarrow> 'w HeartbeatV2 \<Rightarrow> 'w HeartbeatV2" where
  "closeWaiters [] h = h"
| "closeWaiters (c # cs) h =
     (let h1 = close_chan c h in if panicking h1 then h1 else closeWaiters cs h1)"

text \<open>
  The block after a send that returned \<^verbatim>\<open>true\<close> (lines 280-291 with \<open>hbv2FallbackOk\<close>,
  lines 349-360 with \<open>hbv2AnnounceOk\<close>; the two are the same statements otherwise).
\<close>

definition announce_ok :: "hbv2TestEvent \<Rightarrow> 'w HeartbeatV2 \<Rightarrow> 'w HeartbeatV2" where
  "announce_ok ev h =
     (let h1 = testEvent ev h;
          h2 = emit AnnounceReset h1;
          h3 = emit DegradedCheckReset h2;
          h4 = emit (ShouldAnnounceSet False) (h3\<lparr>shouldAnnounce := False\<rparr>);
          h5 = onHeartbeat None h4;
          h6 = closeWaiters (announceWaiters h5) h5
      in if panicking h6 then h6
         else emit WaitersCleared (h6\<lparr>announceWaiters := []\<rparr>))"

text \<open>The head of the loop of \<^verbatim>\<open>run\<close> (lines 276-304).\<close>

definition run_preamble :: "'w hb_env \<Rightarrow> 'w HeartbeatV2 \<Rightarrow> 'w HeartbeatV2" where
  "run_preamble E h =
     (if shouldAnnounce h then
        if SupportsFallback E (world h) then
          (let (now, w1) = Now E (world h);
               h1 = h\<lparr>world := w1\<rparr>
           in if now > fallbackBackoffTime h1 then
                (let h2 = emit CallFallbackAnnounce h1;
                     (ok, w2) = FallbackAnnounce E (world h2);
                     h3 = h2\<lparr>world := w2\<rparr>
                 in if ok then announce_ok hbv2FallbackOk h3
                    else
                      (let h4 = testEvent hbv2FallbackErr h3;
                           (now2, w3) = Now E (world h4);
                           (j, w4) = SeventhJitter E (fallbackBackoff h4) w3;
                           h5 = emit (FallbackBackoffTimeSet (now2 + j))
                                  (h4\<lparr>world := w4, fallbackBackoffTime := now2 + j\<rparr>)
                       in onHeartbeat (Some fallbackFailed) h5))
              else testEvent hbv2FallbackBackoff h1)
        else testEvent hbv2NoFallback h
      else h)"

text \<open>The head of the loop of \<^verbatim>\<open>runWithSender\<close> (lines 347-365).\<close>

definition runWithSender_preamble :: "'w hb_env \<Rightarrow> sender \<Rightarrow> 'w HeartbeatV2 \<Rightarrow> 'w HeartbeatV2" where
  "runWithSender_preamble E sndr h =
     (if shouldAnnounce h then
        (let h1 = emit (CallAnnounce sndr) h;
             (ok, w1) = Announce E sndr (world h1);
             h2 = h1\<lparr>world := w1\<rparr>
         in if ok then announce_ok hbv2AnnounceOk h2
            else onHeartbeat (Some announceFailed) (testEvent hbv2AnnounceErr h2))
      else h)"

text \<open>\<^verbatim>\<open>h.inner.Poll(h.closeContext)\<close>\<close>

definition call_Poll :: "'w hb_env \<Rightarrow> 'w HeartbeatV2 \<Rightarrow> bool \<times> 'w HeartbeatV2" where
  "call_Poll E h =
     (let h1 = emit CallPoll h;
          (changed, w1) = Poll E (world h1)
      in (changed, h1\<lparr>world := w1\<rparr>))"

text \<open>The first statement of \<^verbatim>\<open>runWithSender\<close> (lines 342-344).\<close>

definition runWithSender_entry :: "'w hb_env \<Rightarrow> 'w HeartbeatV2 \<Rightarrow> 'w HeartbeatV2" where
  "runWithSender_entry E h =
     (let (changed, h1) = call_Poll E h
      in if changed then emit (ShouldAnnounceSet True) (h1\<lparr>shouldAnnounce := True\<rparr>) else h1)"

text \<open>The cases of the two \<^verbatim>\<open>select\<close>s that are the same statements in both loops.\<close>

definition on_announce_tick :: "'w HeartbeatV2 \<Rightarrow> 'w HeartbeatV2" where
  "on_announce_tick h =
     (let h1 = testEvent hbv2AnnounceInterval h
      in emit (ShouldAnnounceSet True) (h1\<lparr>shouldAnnounce := True\<rparr>))"

definition on_poll_tick :: "'w hb_env \<Rightarrow> 'w HeartbeatV2 \<Rightarrow> 'w HeartbeatV2" where
  "on_poll_tick E h =
     (let (changed, h1) = call_Poll E h
      in if changed then
           (let h2 = testEvent hbv2PollDiff h1
            in emit (ShouldAnnounceSet True) (h2\<lparr>shouldAnnounce := True\<rparr>))
         else testEvent hbv2PollSame h1)"

definition on_testAnnounce :: "waiter \<Rightarrow> 'w HeartbeatV2 \<Rightarrow> 'w HeartbeatV2" where
  "on_testAnnounce ch h =
     (let h1 = emit (ShouldAnnounceSet True) (h\<lparr>shouldAnnounce := True\<rparr>)
      in emit (WaiterParked ch) (h1\<lparr>announceWaiters := announceWaiters h1 @ [ch]\<rparr>))"

text \<open>
  \<^verbatim>\<open>case <-h.degradedCheck.Next()\<close> of \<^verbatim>\<open>run\<close> (lines 324-330). \<^verbatim>\<open>||\<close> and \<^verbatim>\<open>&&\<close>
  evaluate their right operand only when needed, so \<^verbatim>\<open>Poll\<close> is called only for a driver
  with fallback.
\<close>

definition run_degradedCheck :: "'w hb_env \<Rightarrow> 'w HeartbeatV2 \<Rightarrow> 'w HeartbeatV2" where
  "run_degradedCheck E h =
     (if \<not> SupportsFallback E (world h) then onHeartbeat (Some noSenderErr) h
      else
        (let (changed, h1) = call_Poll E h
         in if \<not> changed \<and> \<not> shouldAnnounce h1 then onHeartbeat (Some noSenderErr) h1
            else h1))"

text \<open>\<^verbatim>\<open>case <-h.degradedCheck.Next()\<close> of \<^verbatim>\<open>runWithSender\<close> (lines 382-387).\<close>

definition runWithSender_degradedCheck :: "'w hb_env \<Rightarrow> 'w HeartbeatV2 \<Rightarrow> 'w HeartbeatV2" where
  "runWithSender_degradedCheck E h =
     (let (changed, h1) = call_Poll E h
      in if \<not> changed \<and> \<not> shouldAnnounce h1 then onHeartbeat None h1 else h1)"

text \<open>
  The deferred calls of \<^verbatim>\<open>run\<close>, last deferred first: \<^verbatim>\<open>h.testEvent(hbv2Close)\<close>,
  \<^verbatim>\<open>h.degradedCheck.Stop()\<close>, \<^verbatim>\<open>h.poll.Stop()\<close>, \<^verbatim>\<open>h.announce.Stop()\<close>.
\<close>

definition run_deferred :: "'w HeartbeatV2 \<Rightarrow> 'w HeartbeatV2" where
  "run_deferred h = emit AnnounceStop (emit PollStop (emit DegradedCheckStop (testEvent hbv2Close h)))"

subsection \<open>The engine: the two loops\<close>

text \<open>
  The worker is followed from one \<^verbatim>\<open>select\<close> to the next. \<open>to_run\<close> is the way from the
  end of an iteration of \<^verbatim>\<open>run\<close> to its \<^verbatim>\<open>select\<close>: the head of the loop, and the
  deferred calls when it panicked. \<open>to_runWithSender\<close> is the same for \<^verbatim>\<open>runWithSender\<close>
  (a panic there unwinds through \<^verbatim>\<open>run\<close>).
\<close>

definition to_run :: "'w hb_env \<Rightarrow> 'w HeartbeatV2 \<Rightarrow> loc \<times> 'w HeartbeatV2" where
  "to_run E h =
     (let h1 = run_preamble E h
      in if panicking h1 then (Crashed, run_deferred h1) else (AtRun, h1))"

definition to_runWithSender :: "'w hb_env \<Rightarrow> sender \<Rightarrow> 'w HeartbeatV2 \<Rightarrow> loc \<times> 'w HeartbeatV2" where
  "to_runWithSender E sndr h =
     (let h1 = runWithSender_preamble E sndr h
      in if panicking h1 then (Crashed, run_deferred h1) else (AtRunWithSender sndr, h1))"

text \<open>
  When \<^verbatim>\<open>runWithSender\<close> returns, \<^verbatim>\<open>run\<close> resets the degraded check (line 313) and
  goes round its loop.
\<close>

definition runWithSender_return :: "'w hb_env \<Rightarrow> 'w HeartbeatV2 \<Rightarrow> loc \<times> 'w HeartbeatV2" where
  "runWithSender_return E h = to_run E (emit DegradedCheckReset h)"

text \<open>
  One event received by the \<^verbatim>\<open>select\<close> the worker is blocked in, up to the next
  \<^verbatim>\<open>select\<close>. An event that the \<^verbatim>\<open>select\<close> has no case for is not received there: the
  worker stays blocked.
\<close>

fun step :: "'w hb_env \<Rightarrow> loc \<times> 'w HeartbeatV2 \<Rightarrow> event \<Rightarrow> loc \<times> 'w HeartbeatV2" where
  "step E (AtRun, h) (SenderAvailable sndr) = to_runWithSender E sndr (runWithSender_entry E h)"
| "step E (AtRun, h) AnnounceTick = to_run E (on_announce_tick h)"
| "step E (AtRun, h) PollTick = to_run E (on_poll_tick E h)"
| "step E (AtRun, h) DegradedCheckTick = to_run E (run_degradedCheck E h)"
| "step E (AtRun, h) (TestAnnounce ch) = to_run E (on_testAnnounce ch h)"
| "step E (AtRun, h) CloseContextDone = (Returned, run_deferred h)"
| "step E (AtRun, h) SenderDone = (AtRun, h)"
| "step E (AtRunWithSender sndr, h) SenderDone = runWithSender_return E h"
| "step E (AtRunWithSender sndr, h) AnnounceTick = to_runWithSender E sndr (on_announce_tick h)"
| "step E (AtRunWithSender sndr, h) PollTick = to_runWithSender E sndr (on_poll_tick E h)"
| "step E (AtRunWithSender sndr, h) DegradedCheckTick =
     to_runWithSender E sndr (runWithSender_degradedCheck E h)"
| "step E (AtRunWithSender sndr, h) (TestAnnounce ch) = to_runWithSender E sndr (on_testAnnounce ch h)"
| "step E (AtRunWithSender sndr, h) CloseContextDone = runWithSender_return E h"
| "step E (AtRunWithSender sndr, h) (SenderAvailable sndr') = (AtRunWithSender sndr, h)"
| "step E (Returned, h) ev = (Returned, h)"
| "step E (Crashed, h) ev = (Crashed, h)"



definition newHeartbeatV2 :: "duration \<Rightarrow> bool \<Rightarrow> bool \<Rightarrow> 'w \<Rightarrow> 'w HeartbeatV2" where
  "newHeartbeatV2 backoff events cb w =
     \<lparr>fallbackBackoff = backoff, testEvents = events, onHeartbeatInner = cb,
      fallbackBackoffTime = 0, shouldAnnounce = False, announceWaiters = [],
      world = w, closedChans = [], panicking = False, effects = []\<rparr>"

subsection \<open>Notation for the statements\<close>

text \<open>
  The effects of one call of \<^verbatim>\<open>h.testEvent\<close> and of one call of \<^verbatim>\<open>h.onHeartbeat\<close>, for a
  configuration with (\<open>on\<close>) or without the test channel and with (\<open>cb\<close>) or without the
  inner callback; the effects that a piece of code added; and "some \<open>b\<close> comes after the
  first \<open>a\<close>".
\<close>

definition tev :: "bool \<Rightarrow> hbv2TestEvent \<Rightarrow> effect list" where
  "tev on ev = TestEventCall ev # (if on then [TestEventSend ev] else [])"

definition hb :: "bool \<Rightarrow> bool \<Rightarrow> hb_error option \<Rightarrow> effect list" where
  "hb on cb err =
     OnHeartbeat err # tev on (if err \<noteq> None then hbv2OnHeartbeatErr else hbv2OnHeartbeatOk)
       @ (if cb then [OnHeartbeatInner err] else [])"

definition new_effects :: "'w HeartbeatV2 \<Rightarrow> 'w HeartbeatV2 \<Rightarrow> effect list" where
  "new_effects h h' = drop (length (effects h)) (effects h')"

definition occurs_before :: "effect \<Rightarrow> effect \<Rightarrow> effect list \<Rightarrow> bool" where
  "occurs_before a b es = (a \<in> set es \<and> b \<in> set (dropWhile (\<lambda>e. e \<noteq> a) es))"

text \<open>
  The channels closed by a list of effects, in order; whether a list of effects holds the
  test event of a send that returned \<^verbatim>\<open>true\<close> (\<^verbatim>\<open>h.testEvent(hbv2AnnounceOk)\<close> and
  \<^verbatim>\<open>h.testEvent(hbv2FallbackOk)\<close> are called in those branches only); and the waiters that
  a schedule sends on \<^verbatim>\<open>testAnnounce\<close>.
\<close>

fun closed_by :: "effect \<Rightarrow> waiter list" where
  "closed_by (CloseWaiter c) = [c]"
| "closed_by _ = []"

definition closes :: "effect list \<Rightarrow> waiter list" where
  "closes es = concat (map closed_by es)"

definition success_in :: "effect list \<Rightarrow> bool" where
  "success_in es = (TestEventCall hbv2AnnounceOk \<in> set es \<or> TestEventCall hbv2FallbackOk \<in> set es)"






subsection \<open>A small driver and engine to run the definitions on\<close>

text \<open>
  An engine driver with fixed answers over a world that is only a clock (each reading
  advances it by one), and an engine state built by \<open>newHeartbeatV2\<close> with a backoff of 70,
  no test channel and no inner callback, then given a latch, pending waiters and a backoff
  deadline of 5.
\<close>

definition demo_env :: "bool \<Rightarrow> bool \<Rightarrow> bool \<Rightarrow> nat hb_env" where
  "demo_env supports changed ok =
     \<lparr>Poll = (\<lambda>w. (changed, w)), FallbackAnnounce = (\<lambda>w. (ok, w)),
      Announce = (\<lambda>sndr w. (ok, w)), SupportsFallback = (\<lambda>w. supports),
      Now = (\<lambda>w. (int w, Suc w)), SeventhJitter = (\<lambda>d w. (d - d div 7, w))\<rparr>"

definition demo_hb :: "bool \<Rightarrow> waiter list \<Rightarrow> nat \<Rightarrow> nat HeartbeatV2" where
  "demo_hb latch ws w =
     (newHeartbeatV2 70 False False w)
       \<lparr>fallbackBackoffTime := 5, shouldAnnounce := latch, announceWaiters := ws\<rparr>"

text \<open>
  For the ssh driver: servers are strings, the world counts the calls of \<^verbatim>\<open>getServer\<close>,
  whose first call returns \<open>''A''\<close> and every later call \<open>''B''\<close>; the announcer and the
  sender succeed when \<open>up\<close> and fail otherwise; two servers are different when they are not
  equal.
\<close>

definition demo_deps :: "bool \<Rightarrow> (string, nat, bool) ssh_deps" where
  "demo_deps up =
     \<lparr>getServer = (\<lambda>n. (if n = 0 then ''A'' else ''B'', Suc n)),
      announcer = Some (\<lambda>server n. (if up then None else Some ''unavailable'', n)),
      Send = (\<lambda>sndr msg n. (if up then None else Some ''closed'', n)),
      CompareServers = (\<lambda>a b. a \<noteq> b),
      Different = True\<rparr>"

definition demo_ssh :: "string option \<Rightarrow> nat \<Rightarrow> (string, nat) sshServerHeartbeatV2" where
  "demo_ssh p n = \<lparr>prev = p, ext = n, sent = [], upserted = []\<rparr>"

text \<open>
  A second world for the ssh driver: \<^verbatim>\<open>getServer\<close> returns \<open>''A''\<close>, then \<open>''B''\<close>, then
  \<open>''A''\<close> for ever (the server changed and changed back), and the sender accepts the first
  message and fails from then on. \<open>stale_after_success\<close> is the driver after a first
  \<^verbatim>\<open>Announce\<close> from the initial state, \<open>stale_after_failure\<close> the driver after a second one.
\<close>

definition stale_deps :: "(string, nat, bool) ssh_deps" where
  "stale_deps =
     \<lparr>getServer = (\<lambda>n. (if n = 1 then ''B'' else ''A'', Suc n)),
      announcer = None,
      Send = (\<lambda>sndr msg n. (if n \<le> 2 then None else Some ''closed'', n)),
      CompareServers = (\<lambda>a b. a \<noteq> b),
      Different = True\<rparr>"

definition stale_after_success :: "(string, nat) sshServerHeartbeatV2" where
  "stale_after_success = snd (sshServerHeartbeatV2_Announce stale_deps 1 (demo_ssh None 0))"

definition stale_after_failure :: "(string, nat) sshServerHeartbeatV2" where
  "stale_after_failure = snd (sshServerHeartbeatV2_Announce stale_deps 1 stale_after_success)"


section \<open>Properties\<close>

lemmas demo_simps = demo_env_def demo_hb_def newHeartbeatV2_def

subsection \<open>The ssh driver: \<^verbatim>\<open>prev\<close> and \<^verbatim>\<open>Poll\<close>\<close>

lemma Poll_changed:
  "fst (sshServerHeartbeatV2_Poll D h) \<longleftrightarrow>
     prev h = None
     \<or> (\<exists>p. prev h = Some p \<and> CompareServers D (fst (getServer D (ext h))) p = Different D)"
  by (cases "prev h") (simp_all add: sshServerHeartbeatV2_Poll_def split_def Let_def)

text \<open>
  C7: in every state of the ssh driver, \<^verbatim>\<open>Poll\<close> returns true if and only if \<^verbatim>\<open>prev\<close>
  is nil (nothing was announced successfully yet) or \<^verbatim>\<open>services.CompareServers\<close> finds
  the current server, as \<^verbatim>\<open>getServer\<close> returns it now, \<^verbatim>\<open>Different\<close> from \<^verbatim>\<open>prev\<close>.
\<close>

theorem C7_poll_iff:
  "fst (sshServerHeartbeatV2_Poll D h) \<longleftrightarrow>
     prev h = None
     \<or> (\<exists>p. prev h = Some p \<and> CompareServers D (fst (getServer D (ext h))) p = Different D)"
  by (rule Poll_changed)

theorem C7_poll_iff_witness:
  "fst (sshServerHeartbeatV2_Poll (demo_deps True) (demo_ssh None 0))
   \<and> fst (sshServerHeartbeatV2_Poll (demo_deps True) (demo_ssh (Some ''A'') 1))
   \<and> \<not> fst (sshServerHeartbeatV2_Poll (demo_deps True) (demo_ssh (Some ''B'') 1))"
  using C7_poll_iff [of "demo_deps True" "demo_ssh None 0"]
    C7_poll_iff [of "demo_deps True" "demo_ssh (Some ''A'') 1"]
    C7_poll_iff [of "demo_deps True" "demo_ssh (Some ''B'') 1"]
  by (simp add: demo_deps_def demo_ssh_def)

text \<open>
  \<^verbatim>\<open>prev\<close> is assigned only in a send that succeeds. \<^verbatim>\<open>Announce\<close> and
  \<^verbatim>\<open>FallbackAnnounce\<close> set it when they return true and leave it as it was when they return
  false; \<^verbatim>\<open>Poll\<close> never assigns it. So after a failed send of either kind, whatever happens
  to the world meanwhile, the next \<^verbatim>\<open>Poll\<close> compares the current server with the same
  \<^verbatim>\<open>prev\<close> as before the failure.
\<close>

lemma prev_only_on_success:
  "prev (snd (sshServerHeartbeatV2_Announce D sndr h)) =
      (if fst (sshServerHeartbeatV2_Announce D sndr h) then Some (fst (getServer D (ext h))) else prev h)
   \<and> prev (snd (sshServerHeartbeatV2_FallbackAnnounce D h)) =
      (if fst (sshServerHeartbeatV2_FallbackAnnounce D h) then Some (fst (getServer D (ext h))) else prev h)
   \<and> prev (snd (sshServerHeartbeatV2_Poll D h)) = prev h
   \<and> (h' = snd (sshServerHeartbeatV2_Announce D sndr h) \<and> \<not> fst (sshServerHeartbeatV2_Announce D sndr h)
        \<or> h' = snd (sshServerHeartbeatV2_FallbackAnnounce D h) \<and> \<not> fst (sshServerHeartbeatV2_FallbackAnnounce D h)
      \<longrightarrow> prev (h'\<lparr>ext := x\<rparr>) = prev h
          \<and> (fst (sshServerHeartbeatV2_Poll D (h'\<lparr>ext := x\<rparr>)) \<longleftrightarrow>
               prev h = None
               \<or> (\<exists>p. prev h = Some p \<and> CompareServers D (fst (getServer D x)) p = Different D)))"
proof -
  have a: "prev (snd (sshServerHeartbeatV2_Announce D sndr h)) =
      (if fst (sshServerHeartbeatV2_Announce D sndr h) then Some (fst (getServer D (ext h))) else prev h)"
    by (simp add: sshServerHeartbeatV2_Announce_def split_def Let_def)
  have f: "prev (snd (sshServerHeartbeatV2_FallbackAnnounce D h)) =
      (if fst (sshServerHeartbeatV2_FallbackAnnounce D h) then Some (fst (getServer D (ext h))) else prev h)"
    by (cases "announcer D") (simp_all add: sshServerHeartbeatV2_FallbackAnnounce_def split_def Let_def)
  have p: "prev (snd (sshServerHeartbeatV2_Poll D h)) = prev h"
    by (cases "prev h") (simp_all add: sshServerHeartbeatV2_Poll_def split_def Let_def)
  have n: "fst (sshServerHeartbeatV2_Poll D (h'\<lparr>ext := x\<rparr>)) \<longleftrightarrow>
               prev h = None
               \<or> (\<exists>p. prev h = Some p \<and> CompareServers D (fst (getServer D x)) p = Different D)"
    if "prev h' = prev h" for h' :: "('a, 'b) sshServerHeartbeatV2"
    using that Poll_changed [of D "h'\<lparr>ext := x\<rparr>"] by simp
  from a f p n show ?thesis by auto
qed

subsection \<open>The ssh driver: what \<^verbatim>\<open>Announce\<close> records\<close>

text \<open>
  When \<^verbatim>\<open>Announce\<close> returns true, \<^verbatim>\<open>prev\<close> is the result of its first call of
  \<^verbatim>\<open>getServer\<close> and the message sent carries the result of its second call.
\<close>

lemma Announce_prev_and_payload:
  "fst (sshServerHeartbeatV2_Announce D sndr h) \<Longrightarrow>
   prev (snd (sshServerHeartbeatV2_Announce D sndr h)) = Some (fst (getServer D (ext h)))
   \<and> sent (snd (sshServerHeartbeatV2_Announce D sndr h)) =
       sent h @ [(sndr, \<lparr>SSHServer = fst (getServer D (snd (getServer D (ext h))))\<rparr>)]"
  by (simp add: sshServerHeartbeatV2_Announce_def split_def Let_def split: if_splits)

text \<open>
  C3 says that after \<^verbatim>\<open>Announce\<close> returns true, \<^verbatim>\<open>prev\<close> is the server that was sent.
  Here \<^verbatim>\<open>getServer\<close> returns \<open>''A''\<close> on the first call and \<open>''B''\<close> on the second (the
  server changed in between) and the send succeeds: \<open>''B''\<close> is sent and \<open>''A''\<close> is recorded
  as \<^verbatim>\<open>prev\<close>. \<^verbatim>\<open>FallbackAnnounce\<close> in the same world upserts and records the same server.
\<close>

theorem C3_prev_is_not_the_payload:
  "fst (sshServerHeartbeatV2_Announce (demo_deps True) 1 (demo_ssh None 0))
   \<and> prev (snd (sshServerHeartbeatV2_Announce (demo_deps True) 1 (demo_ssh None 0))) = Some ''A''
   \<and> sent (snd (sshServerHeartbeatV2_Announce (demo_deps True) 1 (demo_ssh None 0)))
       = [(1, \<lparr>SSHServer = ''B''\<rparr>)]
   \<and> upserted (snd (sshServerHeartbeatV2_FallbackAnnounce (demo_deps True) (demo_ssh None 0))) = [''A'']
   \<and> prev (snd (sshServerHeartbeatV2_FallbackAnnounce (demo_deps True) (demo_ssh None 0))) = Some ''A''"
  by (simp add: demo_deps_def demo_ssh_def sshServerHeartbeatV2_Announce_def
      sshServerHeartbeatV2_FallbackAnnounce_def)

text \<open>
  C2 says that, \<^verbatim>\<open>prev\<close> being assigned only by a send that succeeds, after a failed
  announce the next \<^verbatim>\<open>Poll\<close> still reports a change for a server that differs from the one
  last announced with success. The code does not do that. The first \<^verbatim>\<open>Announce\<close> succeeds:
  it sends \<open>''B''\<close> (second call of \<^verbatim>\<open>getServer\<close>) and records \<open>''A''\<close> (first call) as
  \<^verbatim>\<open>prev\<close>. The second \<^verbatim>\<open>Announce\<close> fails and leaves \<^verbatim>\<open>prev\<close> as it was. The current
  server is then \<open>''A''\<close>, which is different from the \<open>''B''\<close> last announced with success,
  and \<^verbatim>\<open>Poll\<close> returns false: nothing will announce \<open>''A''\<close> before the next announce tick.
\<close>

theorem C2_poll_misses_change_after_failed_announce:
  "fst (sshServerHeartbeatV2_Announce stale_deps 1 (demo_ssh None 0))
   \<and> sent stale_after_success = [(1, \<lparr>SSHServer = ''B''\<rparr>)]
   \<and> prev stale_after_success = Some ''A''
   \<and> \<not> fst (sshServerHeartbeatV2_Announce stale_deps 1 stale_after_success)
   \<and> prev stale_after_failure = Some ''A''
   \<and> fst (getServer stale_deps (ext stale_after_failure)) = ''A''
   \<and> CompareServers stale_deps ''A'' ''B'' = Different stale_deps
   \<and> \<not> fst (sshServerHeartbeatV2_Poll stale_deps stale_after_failure)"
  by (simp add: stale_deps_def stale_after_success_def stale_after_failure_def demo_ssh_def
      sshServerHeartbeatV2_Announce_def sshServerHeartbeatV2_Poll_def)

subsection \<open>What each operation of the engine adds to the effects\<close>

lemma testEvent_eq: "testEvent ev h = h\<lparr>effects := effects h @ tev (testEvents h) ev\<rparr>"
  by (simp add: testEvent_def emit_def tev_def Let_def)

lemma onHeartbeat_eq:
  "onHeartbeat err h = h\<lparr>effects := effects h @ hb (testEvents h) (onHeartbeatInner h) err\<rparr>"
  by (simp add: onHeartbeat_def testEvent_eq emit_def hb_def Let_def)

lemma closeWaiters_eq:
  "\<not> panicking h \<Longrightarrow> distinct cs \<Longrightarrow> set cs \<inter> set (closedChans h) = {} \<Longrightarrow>
   closeWaiters cs h = h\<lparr>closedChans := closedChans h @ cs, effects := effects h @ map CloseWaiter cs\<rparr>"
proof (induction cs arbitrary: h)
  case Nil
  then show ?case by simp
next
  case (Cons c cs)
  let ?h1 = "close_chan c h"
  from Cons.prems have h1: "?h1 = h\<lparr>closedChans := closedChans h @ [c], effects := effects h @ [CloseWaiter c]\<rparr>"
    by (simp add: close_chan_def emit_def)
  from Cons.prems have np: "\<not> panicking ?h1" by (simp add: h1)
  from Cons.prems have "closeWaiters cs ?h1 =
      ?h1\<lparr>closedChans := closedChans ?h1 @ cs, effects := effects ?h1 @ map CloseWaiter cs\<rparr>"
    by (intro Cons.IH np) (auto simp: h1)
  with np show ?case by (simp add: h1)
qed

lemma announce_ok_eq:
  assumes "\<not> panicking h" "distinct (announceWaiters h)"
    "set (announceWaiters h) \<inter> set (closedChans h) = {}"
  shows "announce_ok ev h =
     h\<lparr>shouldAnnounce := False, announceWaiters := [],
       closedChans := closedChans h @ announceWaiters h,
       effects := effects h @ tev (testEvents h) ev
          @ [AnnounceReset, DegradedCheckReset, ShouldAnnounceSet False]
          @ hb (testEvents h) (onHeartbeatInner h) None
          @ map CloseWaiter (announceWaiters h) @ [WaitersCleared]\<rparr>"
  using assms
  by (simp add: announce_ok_def Let_def testEvent_eq onHeartbeat_eq emit_def closeWaiters_eq)


lemma closeWaiters_effects:
  "\<exists>cs'. effects (closeWaiters cs h) = effects h @ map CloseWaiter cs'"
proof (induction cs arbitrary: h)
  case Nil
  show ?case by (rule exI [of _ "[]"]) simp
next
  case (Cons c cs)
  show ?case
  proof (cases "c \<in> set (closedChans h)")
    case True
    then have "closeWaiters (c # cs) h = h\<lparr>panicking := True\<rparr>"
      by (simp add: close_chan_def)
    then show ?thesis by (intro exI [of _ "[]"]) simp
  next
    case False
    let ?h1 = "close_chan c h"
    from False have e1: "effects ?h1 = effects h @ [CloseWaiter c]"
      by (simp add: close_chan_def emit_def)
    from Cons.IH [of ?h1] obtain cs' where
      e2: "effects (closeWaiters cs ?h1) = effects ?h1 @ map CloseWaiter cs'" by blast
    show ?thesis
    proof (cases "panicking ?h1")
      case True
      then show ?thesis using e1 by (intro exI [of _ "[c]"]) simp
    next
      case False
      then show ?thesis using e1 e2 by (intro exI [of _ "c # cs'"]) simp
    qed
  qed
qed

lemma announce_ok_effects:
  "\<exists>cs' tl. effects (announce_ok ev h) =
      effects h @ tev (testEvents h) ev
        @ [AnnounceReset, DegradedCheckReset, ShouldAnnounceSet False]
        @ hb (testEvents h) (onHeartbeatInner h) None @ map CloseWaiter cs' @ tl
      \<and> (tl = [] \<or> tl = [WaitersCleared])"
proof -
  define h5 where "h5 = onHeartbeat None (emit (ShouldAnnounceSet False)
      ((emit DegradedCheckReset (emit AnnounceReset (testEvent ev h)))\<lparr>shouldAnnounce := False\<rparr>))"
  have e5: "effects h5 = effects h @ tev (testEvents h) ev
        @ [AnnounceReset, DegradedCheckReset, ShouldAnnounceSet False]
        @ hb (testEvents h) (onHeartbeatInner h) None"
    by (simp add: h5_def onHeartbeat_eq testEvent_eq emit_def)
  obtain cs' where e6: "effects (closeWaiters (announceWaiters h5) h5) = effects h5 @ map CloseWaiter cs'"
    using closeWaiters_effects by blast
  have ao: "announce_ok ev h =
      (let h6 = closeWaiters (announceWaiters h5) h5
       in if panicking h6 then h6 else emit WaitersCleared (h6\<lparr>announceWaiters := []\<rparr>))"
    by (simp add: announce_ok_def h5_def Let_def)
  show ?thesis
  proof (cases "panicking (closeWaiters (announceWaiters h5) h5)")
    case True
    then show ?thesis using e5 e6 ao
      by (intro exI [of _ cs'] exI [of _ "[]"]) (simp add: Let_def)
  next
    case False
    then show ?thesis using e5 e6 ao
      by (intro exI [of _ cs'] exI [of _ "[WaitersCleared]"]) (simp add: Let_def emit_def)
  qed
qed

lemma call_Poll_eq:
  "call_Poll E h = (fst (Poll E (world h)), h\<lparr>world := snd (Poll E (world h)), effects := effects h @ [CallPoll]\<rparr>)"
  by (simp add: call_Poll_def emit_def split_def Let_def)


lemma runWithSender_preamble_effects:
  "\<exists>es. effects (runWithSender_preamble E sndr h) = effects h @ es
     \<and> (DegradedCheckReset \<in> set es \<longleftrightarrow> shouldAnnounce h \<and> fst (Announce E sndr (world h)))"
proof (cases "shouldAnnounce h \<and> fst (Announce E sndr (world h))")
  case True
  define h2 where "h2 = (emit (CallAnnounce sndr) h)\<lparr>world := snd (Announce E sndr (world h))\<rparr>"
  have rp: "runWithSender_preamble E sndr h = announce_ok hbv2AnnounceOk h2"
    using True by (simp add: runWithSender_preamble_def split_def Let_def h2_def emit_def)
  have f: "effects h2 = effects h @ [CallAnnounce sndr]" by (simp add: h2_def emit_def)
  from announce_ok_effects [of hbv2AnnounceOk h2] obtain es where
    "effects (announce_ok hbv2AnnounceOk h2) = effects h2 @ es" "DegradedCheckReset \<in> set es"
    by auto
  with True show ?thesis unfolding rp f by (intro exI [of _ "CallAnnounce sndr # es"]) simp
next
  case False
  then show ?thesis
    by (auto simp: runWithSender_preamble_def split_def Let_def emit_def testEvent_eq onHeartbeat_eq
        tev_def hb_def)
qed

lemma run_preamble_effects: "\<exists>es. effects (run_preamble E h) = effects h @ es"
proof (cases "shouldAnnounce h \<and> SupportsFallback E (world h)
    \<and> fallbackBackoffTime h < fst (Now E (world h)) \<and> fst (FallbackAnnounce E (snd (Now E (world h))))")
  case True
  define h3 where "h3 = (emit CallFallbackAnnounce (h\<lparr>world := snd (Now E (world h))\<rparr>))
        \<lparr>world := snd (FallbackAnnounce E (snd (Now E (world h))))\<rparr>"
  have rp: "run_preamble E h = announce_ok hbv2FallbackOk h3"
    using True by (simp add: run_preamble_def split_def Let_def h3_def emit_def)
  have f: "effects h3 = effects h @ [CallFallbackAnnounce]" by (simp add: h3_def emit_def)
  from announce_ok_effects [of hbv2FallbackOk h3] obtain es where
    "effects (announce_ok hbv2FallbackOk h3) = effects h3 @ es" by auto
  then show ?thesis unfolding rp f by simp
next
  case False
  then show ?thesis
    by (auto simp: run_preamble_def split_def Let_def emit_def testEvent_eq onHeartbeat_eq)
qed

lemma run_deferred_eq:
  "run_deferred h = h\<lparr>effects := effects h @ tev (testEvents h) hbv2Close
       @ [DegradedCheckStop, PollStop, AnnounceStop]\<rparr>"
  by (simp add: run_deferred_def testEvent_eq emit_def)

subsection \<open>The block after a successful send\<close>

text \<open>
  C1, as stated: in a successful announce step the latch is cleared before any timer is
  reset, and the heartbeat callback comes after the waiters are closed. It fails: with the
  latch set, the waiter 7 parked and a sender whose announce succeeds, the head of the inner
  loop resets both intervals before it clears the latch, and calls \<^verbatim>\<open>onHeartbeat(nil)\<close>
  before it closes the waiter.
\<close>

theorem C1_latch_first_counterexample:
  "shouldAnnounce (demo_hb True [7] 9)
   \<and> fst (Announce (demo_env True False True) 1 (world (demo_hb True [7] 9)))
   \<and> effects (runWithSender_preamble (demo_env True False True) 1 (demo_hb True [7] 9))
       = [CallAnnounce 1, TestEventCall hbv2AnnounceOk, AnnounceReset, DegradedCheckReset,
          ShouldAnnounceSet False, OnHeartbeat None, TestEventCall hbv2OnHeartbeatOk,
          CloseWaiter 7, WaitersCleared]
   \<and> \<not> occurs_before (ShouldAnnounceSet False) AnnounceReset
         (effects (runWithSender_preamble (demo_env True False True) 1 (demo_hb True [7] 9)))
   \<and> \<not> occurs_before (CloseWaiter 7) (OnHeartbeat None)
         (effects (runWithSender_preamble (demo_env True False True) 1 (demo_hb True [7] 9)))"
  by (simp add: demo_simps runWithSender_preamble_def announce_ok_def testEvent_def onHeartbeat_def
      emit_def close_chan_def occurs_before_def Let_def)

text \<open>
  C1, amended: in every successful announce step, over the stream or by the fallback, the
  worker (after the test event of the success) resets the announce interval, resets the
  degraded-check interval, clears the latch, calls the heartbeat callback with nil, closes
  every pending waiter in the order they were parked, and empties the list, in this order.
  So the latch is cleared before the callback and before any waiter is closed, and after
  both resets. The state is one the worker can be in: not panicking, the pending waiters
  distinct and none of them closed yet.
\<close>

theorem C1_success_block_order:
  assumes "shouldAnnounce h" "\<not> panicking h" "distinct (announceWaiters h)"
    "set (announceWaiters h) \<inter> set (closedChans h) = {}"
  shows "(fst (Announce E sndr (world h)) \<longrightarrow>
            new_effects h (runWithSender_preamble E sndr h) =
              [CallAnnounce sndr] @ tev (testEvents h) hbv2AnnounceOk
              @ [AnnounceReset, DegradedCheckReset, ShouldAnnounceSet False]
              @ hb (testEvents h) (onHeartbeatInner h) None
              @ map CloseWaiter (announceWaiters h) @ [WaitersCleared])
       \<and> (SupportsFallback E (world h) \<and> fst (Now E (world h)) > fallbackBackoffTime h
            \<and> fst (FallbackAnnounce E (snd (Now E (world h)))) \<longrightarrow>
            new_effects h (run_preamble E h) =
              [CallFallbackAnnounce] @ tev (testEvents h) hbv2FallbackOk
              @ [AnnounceReset, DegradedCheckReset, ShouldAnnounceSet False]
              @ hb (testEvents h) (onHeartbeatInner h) None
              @ map CloseWaiter (announceWaiters h) @ [WaitersCleared])"
  using assms
  by (simp add: runWithSender_preamble_def run_preamble_def new_effects_def split_def Let_def
      emit_def announce_ok_eq)

theorem C1_success_block_order_witness:
  "shouldAnnounce (demo_hb True [7, 8] 9) \<and> \<not> panicking (demo_hb True [7, 8] 9)
   \<and> distinct (announceWaiters (demo_hb True [7, 8] 9))
   \<and> set (announceWaiters (demo_hb True [7, 8] 9)) \<inter> set (closedChans (demo_hb True [7, 8] 9)) = {}
   \<and> fst (Announce (demo_env True False True) 1 (world (demo_hb True [7, 8] 9)))
   \<and> new_effects (demo_hb True [7, 8] 9)
        (runWithSender_preamble (demo_env True False True) 1 (demo_hb True [7, 8] 9))
       = [CallAnnounce 1, TestEventCall hbv2AnnounceOk, AnnounceReset, DegradedCheckReset,
          ShouldAnnounceSet False, OnHeartbeat None, TestEventCall hbv2OnHeartbeatOk,
          CloseWaiter 7, CloseWaiter 8, WaitersCleared]
   \<and> new_effects (demo_hb True [7, 8] 9) (run_preamble (demo_env True False True) (demo_hb True [7, 8] 9))
       = [CallFallbackAnnounce, TestEventCall hbv2FallbackOk, AnnounceReset, DegradedCheckReset,
          ShouldAnnounceSet False, OnHeartbeat None, TestEventCall hbv2OnHeartbeatOk,
          CloseWaiter 7, CloseWaiter 8, WaitersCleared]"
  using C1_success_block_order [of "demo_hb True [7, 8] 9" "demo_env True False True" 1]
  by (simp add: demo_simps tev_def hb_def)

subsection \<open>The head of the outer loop\<close>

text \<open>
  C4, as stated: with the latch set and a driver with fallback, \<^verbatim>\<open>FallbackAnnounce\<close> is
  called unless the current time is before the deadline. It fails when the clock reads
  exactly the deadline: \<^verbatim>\<open>time.Now().After(h.fallbackBackoffTime)\<close> is false there, the
  worker emits the backoff event and sends nothing.
\<close>

theorem C4_deadline_instant_counterexample:
  "shouldAnnounce (demo_hb True [] 5)
   \<and> SupportsFallback (demo_env True False True) (world (demo_hb True [] 5))
   \<and> \<not> fst (Now (demo_env True False True) (world (demo_hb True [] 5)))
          < fallbackBackoffTime (demo_hb True [] 5)
   \<and> effects (run_preamble (demo_env True False True) (demo_hb True [] 5))
       = [TestEventCall hbv2FallbackBackoff]
   \<and> CallFallbackAnnounce \<notin> set (effects (run_preamble (demo_env True False True) (demo_hb True [] 5)))"
  by (simp add: demo_simps run_preamble_def testEvent_def emit_def Let_def)

text \<open>
  C4, amended: at the head of the outer loop with the latch set, a driver without fallback
  gets the no-fallback test event and no send; a driver with fallback, while the current
  time is not after the deadline (before it or equal to it), gets the backoff test event and
  no send; and \<^verbatim>\<open>FallbackAnnounce\<close> is called exactly when the latch is set, fallback is
  supported and the current time is strictly after the deadline.
\<close>

theorem C4_fallback_attempt_iff:
  "(shouldAnnounce h \<and> \<not> SupportsFallback E (world h) \<longrightarrow>
      new_effects h (run_preamble E h) = tev (testEvents h) hbv2NoFallback)
   \<and> (shouldAnnounce h \<and> SupportsFallback E (world h) \<and> fst (Now E (world h)) \<le> fallbackBackoffTime h \<longrightarrow>
      new_effects h (run_preamble E h) = tev (testEvents h) hbv2FallbackBackoff)
   \<and> (CallFallbackAnnounce \<in> set (new_effects h (run_preamble E h)) \<longleftrightarrow>
      shouldAnnounce h \<and> SupportsFallback E (world h) \<and> fallbackBackoffTime h < fst (Now E (world h)))"
proof -
  have a: "new_effects h (run_preamble E h) = tev (testEvents h) hbv2NoFallback"
    if "shouldAnnounce h" "\<not> SupportsFallback E (world h)"
    using that by (simp add: run_preamble_def new_effects_def testEvent_eq)
  have b: "new_effects h (run_preamble E h) = tev (testEvents h) hbv2FallbackBackoff"
    if "shouldAnnounce h" "SupportsFallback E (world h)" "fst (Now E (world h)) \<le> fallbackBackoffTime h"
    using that by (simp add: run_preamble_def new_effects_def testEvent_eq split_def Let_def)
  have c: "\<exists>es. new_effects h (run_preamble E h) = CallFallbackAnnounce # es"
    if "shouldAnnounce h" "SupportsFallback E (world h)" "fallbackBackoffTime h < fst (Now E (world h))"
  proof (cases "fst (FallbackAnnounce E (snd (Now E (world h))))")
    case True
    define h3 where "h3 = (emit CallFallbackAnnounce (h\<lparr>world := snd (Now E (world h))\<rparr>))
        \<lparr>world := snd (FallbackAnnounce E (snd (Now E (world h))))\<rparr>"
    have rp: "run_preamble E h = announce_ok hbv2FallbackOk h3"
      using True that by (simp add: run_preamble_def split_def Let_def h3_def emit_def)
    have f: "effects h3 = effects h @ [CallFallbackAnnounce]"
      by (simp add: h3_def emit_def)
    from announce_ok_effects [of hbv2FallbackOk h3] obtain es where
      "effects (announce_ok hbv2FallbackOk h3) = effects h3 @ es" by auto
    then show ?thesis by (simp add: rp f new_effects_def)
  next
    case False
    with that show ?thesis
      by (simp add: run_preamble_def new_effects_def split_def Let_def emit_def testEvent_eq onHeartbeat_eq)
  qed
  have d: "new_effects h (run_preamble E h) = []" if "\<not> shouldAnnounce h"
    using that by (simp add: run_preamble_def new_effects_def)
  have e: "CallFallbackAnnounce \<notin> set (tev on ev)" for on ev
    by (simp add: tev_def)
  have iff: "CallFallbackAnnounce \<in> set (new_effects h (run_preamble E h)) \<longleftrightarrow>
      shouldAnnounce h \<and> SupportsFallback E (world h) \<and> fallbackBackoffTime h < fst (Now E (world h))"
  proof (cases "shouldAnnounce h")
    case False
    then show ?thesis using d by simp
  next
    case latch: True
    show ?thesis
    proof (cases "SupportsFallback E (world h)")
      case False
      then show ?thesis using a [OF latch] e by simp
    next
      case sup: True
      show ?thesis
      proof (cases "fallbackBackoffTime h < fst (Now E (world h))")
        case True
        with c [OF latch sup] latch sup show ?thesis by auto
      next
        case False
        then have "fst (Now E (world h)) \<le> fallbackBackoffTime h" by simp
        from b [OF latch sup this] False e show ?thesis by simp
      qed
    qed
  qed
  from a b iff show ?thesis by blast
qed

theorem C4_fallback_attempt_iff_witness:
  "shouldAnnounce (demo_hb True [] 2)
   \<and> SupportsFallback (demo_env True False False) (world (demo_hb True [] 2))
   \<and> fst (Now (demo_env True False False) (world (demo_hb True [] 2))) \<le> fallbackBackoffTime (demo_hb True [] 2)
   \<and> new_effects (demo_hb True [] 2) (run_preamble (demo_env True False False) (demo_hb True [] 2))
       = [TestEventCall hbv2FallbackBackoff]
   \<and> CallFallbackAnnounce \<notin> set (new_effects (demo_hb True [] 2)
         (run_preamble (demo_env True False False) (demo_hb True [] 2)))
   \<and> fallbackBackoffTime (demo_hb True [] 6) < fst (Now (demo_env True False False) (world (demo_hb True [] 6)))
   \<and> CallFallbackAnnounce \<in> set (new_effects (demo_hb True [] 6)
         (run_preamble (demo_env True False False) (demo_hb True [] 6)))
   \<and> \<not> SupportsFallback (demo_env False False False) (world (demo_hb True [] 6))
   \<and> new_effects (demo_hb True [] 6) (run_preamble (demo_env False False False) (demo_hb True [] 6))
       = [TestEventCall hbv2NoFallback]"
  using C4_fallback_attempt_iff [of "demo_hb True [] 2" "demo_env True False False"]
    C4_fallback_attempt_iff [of "demo_hb True [] 6" "demo_env True False False"]
    C4_fallback_attempt_iff [of "demo_hb True [] 6" "demo_env False False False"]
  by (simp add: demo_simps tev_def)

text \<open>
  C6: a send that fails fires its own error, once, and leaves the latch set. At the head of
  the inner loop a failed \<^verbatim>\<open>Announce\<close> is followed by the test event of the failure and by
  \<^verbatim>\<open>onHeartbeat(announceFailed)\<close> and nothing else, and \<^verbatim>\<open>fallbackBackoffTime\<close> is as it
  was. At the head of the outer loop a failed \<^verbatim>\<open>FallbackAnnounce\<close> is followed by the test
  event of the failure, by the write of \<^verbatim>\<open>fallbackBackoffTime\<close>, which becomes the time
  read after the failure plus \<^verbatim>\<open>utils.SeventhJitter(h.fallbackBackoff)\<close>, and by
  \<^verbatim>\<open>onHeartbeat(fallbackFailed)\<close>.
\<close>

theorem C6_failed_send:
  assumes "shouldAnnounce h"
  shows "(\<not> fst (Announce E sndr (world h)) \<longrightarrow>
            new_effects h (runWithSender_preamble E sndr h) =
              [CallAnnounce sndr] @ tev (testEvents h) hbv2AnnounceErr
              @ hb (testEvents h) (onHeartbeatInner h) (Some announceFailed)
          \<and> shouldAnnounce (runWithSender_preamble E sndr h)
          \<and> fallbackBackoffTime (runWithSender_preamble E sndr h) = fallbackBackoffTime h)
       \<and> (SupportsFallback E (world h) \<and> fallbackBackoffTime h < now \<and> Now E (world h) = (now, w1)
            \<and> FallbackAnnounce E w1 = (False, w2) \<and> Now E w2 = (now2, w3)
            \<and> SeventhJitter E (fallbackBackoff h) w3 = (j, w4) \<longrightarrow>
            new_effects h (run_preamble E h) =
              [CallFallbackAnnounce] @ tev (testEvents h) hbv2FallbackErr
              @ [FallbackBackoffTimeSet (now2 + j)]
              @ hb (testEvents h) (onHeartbeatInner h) (Some fallbackFailed)
          \<and> shouldAnnounce (run_preamble E h)
          \<and> fallbackBackoffTime (run_preamble E h) = now2 + j)"
  using assms
  by (simp add: runWithSender_preamble_def run_preamble_def new_effects_def split_def Let_def
      emit_def testEvent_eq onHeartbeat_eq)

theorem C6_failed_send_witness:
  "shouldAnnounce (demo_hb True [7] 9)
   \<and> \<not> fst (Announce (demo_env True False False) 1 (world (demo_hb True [7] 9)))
   \<and> new_effects (demo_hb True [7] 9) (runWithSender_preamble (demo_env True False False) 1 (demo_hb True [7] 9))
       = [CallAnnounce 1, TestEventCall hbv2AnnounceErr, OnHeartbeat (Some announceFailed),
          TestEventCall hbv2OnHeartbeatErr]
   \<and> shouldAnnounce (runWithSender_preamble (demo_env True False False) 1 (demo_hb True [7] 9))
   \<and> fallbackBackoffTime (runWithSender_preamble (demo_env True False False) 1 (demo_hb True [7] 9)) = 5
   \<and> SupportsFallback (demo_env True False False) (world (demo_hb True [7] 9))
   \<and> fallbackBackoffTime (demo_hb True [7] 9) < 9
   \<and> Now (demo_env True False False) (world (demo_hb True [7] 9)) = (9, 10)
   \<and> FallbackAnnounce (demo_env True False False) 10 = (False, 10)
   \<and> Now (demo_env True False False) 10 = (10, 11)
   \<and> SeventhJitter (demo_env True False False) (fallbackBackoff (demo_hb True [7] 9)) 11 = (60, 11)
   \<and> new_effects (demo_hb True [7] 9) (run_preamble (demo_env True False False) (demo_hb True [7] 9))
       = [CallFallbackAnnounce, TestEventCall hbv2FallbackErr, FallbackBackoffTimeSet 70,
          OnHeartbeat (Some fallbackFailed), TestEventCall hbv2OnHeartbeatErr]
   \<and> shouldAnnounce (run_preamble (demo_env True False False) (demo_hb True [7] 9))
   \<and> fallbackBackoffTime (run_preamble (demo_env True False False) (demo_hb True [7] 9)) = 70"
  using C6_failed_send [of "demo_hb True [7] 9" "demo_env True False False" 1 9 10 10 10 11 60 11]
  by (simp add: demo_simps tev_def hb_def)

subsection \<open>The degraded check\<close>





subsection \<open>Between the two loops\<close>

text \<open>
  C9, as stated: when a sender is received in the outer loop, the degraded-check interval
  is reset on the way into the inner loop. It fails: with the latch clear and a driver that
  sees no change, the worker goes from the \<^verbatim>\<open>select\<close> of \<^verbatim>\<open>run\<close> to the \<^verbatim>\<open>select\<close> of
  \<^verbatim>\<open>runWithSender\<close> with one call of \<^verbatim>\<open>Poll\<close> and no reset.
\<close>

theorem C9_no_reset_on_entry_counterexample:
  "fst (step (demo_env True False True) (AtRun, demo_hb False [] 9) (SenderAvailable 1)) = AtRunWithSender 1
   \<and> effects (snd (step (demo_env True False True) (AtRun, demo_hb False [] 9) (SenderAvailable 1))) = [CallPoll]
   \<and> DegradedCheckReset \<notin> set (effects (snd (step (demo_env True False True) (AtRun, demo_hb False [] 9) (SenderAvailable 1))))"
  by (simp add: demo_simps to_runWithSender_def runWithSender_entry_def runWithSender_preamble_def
      call_Poll_def emit_def Let_def)

text \<open>
  C9, amended: when a sender is received in the outer loop, the worker enters the inner
  loop with one call of \<^verbatim>\<open>Poll\<close> and without resetting the degraded-check interval; up to
  the first \<^verbatim>\<open>select\<close> of the inner loop that interval is reset only if the first head of
  the inner loop announces with success (the latch was set or the poll reported a change,
  and \<^verbatim>\<open>Announce\<close> returned true). The interval is reset when \<^verbatim>\<open>runWithSender\<close> returns,
  on the sender's done signal or on cancellation: the reset is the first thing the worker
  does then, and it goes on in the outer loop.
\<close>

theorem C9_degraded_reset_on_return:
  "DegradedCheckReset \<notin> set (new_effects h (runWithSender_entry E h))
   \<and> (DegradedCheckReset \<in> set (new_effects h (snd (step E (AtRun, h) (SenderAvailable sndr)))) \<longleftrightarrow>
        (shouldAnnounce h \<or> fst (Poll E (world h))) \<and> fst (Announce E sndr (snd (Poll E (world h)))))
   \<and> fst (step E (AtRun, h) (SenderAvailable sndr)) =
        (if panicking (snd (step E (AtRun, h) (SenderAvailable sndr))) then Crashed
         else AtRunWithSender sndr)
   \<and> (ev = SenderDone \<or> ev = CloseContextDone \<longrightarrow>
        (\<exists>es. effects (snd (step E (AtRunWithSender sndr, h) ev)) = effects h @ DegradedCheckReset # es)
        \<and> fst (step E (AtRunWithSender sndr, h) ev) =
            (if panicking (snd (step E (AtRunWithSender sndr, h) ev)) then Crashed else AtRun))"
proof -
  let ?h1 = "runWithSender_entry E h"
  have h1: "?h1 = h\<lparr>shouldAnnounce := shouldAnnounce h \<or> fst (Poll E (world h)),
      world := snd (Poll E (world h)),
      effects := effects h @ CallPoll # (if fst (Poll E (world h)) then [ShouldAnnounceSet True] else [])\<rparr>"
    by (simp add: runWithSender_entry_def call_Poll_eq emit_def)
  have a: "DegradedCheckReset \<notin> set (new_effects h ?h1)"
    by (simp add: h1 new_effects_def)
  from runWithSender_preamble_effects [of E sndr ?h1] obtain es where
    es: "effects (runWithSender_preamble E sndr ?h1) = effects ?h1 @ es"
      "DegradedCheckReset \<in> set es \<longleftrightarrow> shouldAnnounce ?h1 \<and> fst (Announce E sndr (world ?h1))"
    by blast
  define es1 where "es1 = CallPoll # (if fst (Poll E (world h)) then [ShouldAnnounceSet True] else [])"
  have e1: "effects ?h1 = effects h @ es1" "DegradedCheckReset \<notin> set es1"
    and l1: "shouldAnnounce ?h1 = (shouldAnnounce h \<or> fst (Poll E (world h)))"
    and w1: "world ?h1 = snd (Poll E (world h))"
    by (simp_all add: h1 es1_def)
  let ?h2 = "runWithSender_preamble E sndr ?h1"
  have e2: "effects ?h2 = effects h @ (es1 @ es)" using es(1) e1(1) by simp
  have "\<exists>tl. effects (snd (step E (AtRun, h) (SenderAvailable sndr))) = effects h @ (es1 @ es @ tl)
      \<and> DegradedCheckReset \<notin> set tl"
  proof (cases "panicking ?h2")
    case True
    then have "effects (snd (step E (AtRun, h) (SenderAvailable sndr))) =
        effects h @ (es1 @ es @ (tev (testEvents ?h2) hbv2Close @ [DegradedCheckStop, PollStop, AnnounceStop]))"
      by (simp add: to_runWithSender_def Let_def run_deferred_eq e2)
    moreover have "DegradedCheckReset \<notin> set (tev (testEvents ?h2) hbv2Close @ [DegradedCheckStop, PollStop, AnnounceStop])"
      by (simp add: tev_def)
    ultimately show ?thesis by blast
  next
    case False
    then have "effects (snd (step E (AtRun, h) (SenderAvailable sndr))) = effects h @ (es1 @ es @ [])"
      by (simp add: to_runWithSender_def Let_def e2)
    then show ?thesis by (intro exI [of _ "[]"]) simp
  qed
  then obtain tl where tl: "effects (snd (step E (AtRun, h) (SenderAvailable sndr))) = effects h @ (es1 @ es @ tl)"
    "DegradedCheckReset \<notin> set tl" by blast
  have b: "DegradedCheckReset \<in> set (new_effects h (snd (step E (AtRun, h) (SenderAvailable sndr)))) \<longleftrightarrow>
        (shouldAnnounce h \<or> fst (Poll E (world h))) \<and> fst (Announce E sndr (snd (Poll E (world h))))"
    unfolding new_effects_def tl(1) using tl(2) e1(2) es(2) l1 w1 by simp
  have c: "fst (step E (AtRun, h) (SenderAvailable sndr)) =
        (if panicking (snd (step E (AtRun, h) (SenderAvailable sndr))) then Crashed
         else AtRunWithSender sndr)"
    by (simp add: to_runWithSender_def Let_def run_deferred_eq)
  let ?h2 = "emit DegradedCheckReset h"
  from run_preamble_effects [of E ?h2] obtain es' where
    es': "effects (run_preamble E ?h2) = effects h @ DegradedCheckReset # es'"
    by (auto simp: emit_def)
  have d: "(\<exists>es. effects (snd (step E (AtRunWithSender sndr, h) ev)) = effects h @ DegradedCheckReset # es)
        \<and> fst (step E (AtRunWithSender sndr, h) ev) =
            (if panicking (snd (step E (AtRunWithSender sndr, h) ev)) then Crashed else AtRun)"
    if "ev = SenderDone \<or> ev = CloseContextDone"
    using that es'
    by (cases "panicking (run_preamble E (emit DegradedCheckReset h))")
      (auto simp: runWithSender_return_def to_run_def Let_def run_deferred_eq)
  from a b c d show ?thesis by blast
qed

theorem C9_degraded_reset_on_return_witness:
  "DegradedCheckReset \<notin> set (new_effects (demo_hb False [] 9)
        (snd (step (demo_env True False True) (AtRun, demo_hb False [] 9) (SenderAvailable 1))))
   \<and> fst (step (demo_env True False True) (AtRun, demo_hb False [] 9) (SenderAvailable 1)) = AtRunWithSender 1
   \<and> DegradedCheckReset \<notin> set (new_effects (demo_hb False [] 9)
        (snd (step (demo_env True True False) (AtRun, demo_hb False [] 9) (SenderAvailable 1))))
   \<and> DegradedCheckReset \<in> set (new_effects (demo_hb False [] 9)
        (snd (step (demo_env True True True) (AtRun, demo_hb False [] 9) (SenderAvailable 1))))
   \<and> effects (snd (step (demo_env True False True) (AtRunWithSender 1, demo_hb False [] 9) SenderDone))
       = [DegradedCheckReset]
   \<and> fst (step (demo_env True False True) (AtRunWithSender 1, demo_hb False [] 9) SenderDone) = AtRun"
  using C9_degraded_reset_on_return [of "demo_hb False [] 9" "demo_env True False True" 1 SenderDone]
    C9_degraded_reset_on_return [of "demo_hb False [] 9" "demo_env True True False" 1 SenderDone]
    C9_degraded_reset_on_return [of "demo_hb False [] 9" "demo_env True True True" 1 SenderDone]
  by (simp add: demo_simps runWithSender_return_def to_run_def run_preamble_def emit_def
      to_runWithSender_def runWithSender_entry_def runWithSender_preamble_def call_Poll_def Let_def)

subsection \<open>The waiters\<close>

lemma closes_simps [simp]:
  "closes [] = []" "closes (e # es) = closed_by e @ closes es"
  "closes (es @ es') = closes es @ closes es'"
  "closes (tev on ev) = []" "closes (hb on cb err) = []" "closes (map CloseWaiter cs) = cs"
  by (simp_all add: closes_def tev_def hb_def) (induction cs, simp_all)

lemma success_in_simps [simp]:
  "success_in [] = False"
  "success_in (es @ es') = (success_in es \<or> success_in es')"
  "success_in (tev on ev) = (ev = hbv2AnnounceOk \<or> ev = hbv2FallbackOk)"
  "success_in (hb on cb err) = False"
  "success_in (map CloseWaiter cs) = False"
  "success_in (e # es) = (e = TestEventCall hbv2AnnounceOk \<or> e = TestEventCall hbv2FallbackOk \<or> success_in es)"
  by (auto simp: success_in_def tev_def hb_def)

























end
